theory Spec2Isabelle
  imports Main
begin

section \<open>The data of the SOLARIS bot\<close>

text \<open>
  The bot keeps one row per user in the table \<open>users\<close> (user id, xp, clearance level),
  reads the roles, channels and members of a guild from the chat platform, and asks the
  platform to add and remove roles and to send messages. Python integers are unbounded
  and are modelled by \<open>int\<close>. Every request to the platform and every commit to the table
  is recorded, in order, in a trace.
\<close>

datatype error = AttributeError | IndexError | KeyError

record role =
  role_id :: int
  role_name :: string

record member =
  member_id :: int
  member_bot :: bool
  member_roles :: "role list"

record guild =
  guild_roles :: "role list"
  guild_text_channels :: "string list"
  guild_members :: "int \<rightharpoonup> member"

datatype effect =
    Commit int int int
  | RemoveRoles int role
  | AddRoles int role
  | Announce int "string option"
  | SendWelcome int
  | SendVerification int
  | ProcessCommands

record bot_state =
  users :: "int \<rightharpoonup> int \<times> int"
  verification_message_id :: "int option"
  guilds :: "int \<rightharpoonup> guild"
  trace :: "effect list"

record payload =
  payload_message_id :: int
  payload_emoji :: string
  payload_guild_id :: "int option"
  payload_user_id :: int

record message =
  message_author :: member
  message_guild :: "guild option"

section \<open>Configuration tables\<close>

definition CLEARANCE_ROLES :: "int \<rightharpoonup> string" where
  "CLEARANCE_ROLES = map_of
     [(0, ''CL-0: Recruit''),
      (1, ''CL-1: Initiate''),
      (2, ''CL-2: Asset''),
      (3, ''CL-3: Agent''),
      (4, ''CL-4: Field Agent''),
      (5, ''CL-5: Senior Agent''),
      (6, ''CL-6: Special Operative''),
      (7, ''CL-7: Handler''),
      (8, ''CL-8: Intelligence Officer''),
      (9, ''CL-9: Shadow Commander''),
      (10, ''CL-10: Control'')]"

definition XP_THRESHOLDS :: "int list" where
  "XP_THRESHOLDS = [0, 100, 300, 600, 1000, 1500, 2100, 2800, 3600, 4500, 5500]"

text \<open>The white heavy check mark U+2705, as the three bytes of its UTF-8 encoding.\<close>

definition check_mark :: string where
  "check_mark = [CHR 0xE2, CHR 0x9C, CHR 0x85]"

section \<open>Python and library primitives\<close>

text \<open>
  \<open>xs[i]\<close> on a Python list: a negative index counts from the end, and an index out of
  range raises IndexError (the value \<open>None\<close> here).
\<close>

definition py_getitem :: "'a list \<Rightarrow> int \<Rightarrow> 'a option" where
  "py_getitem xs i =
     (if 0 \<le> i \<and> i < int (length xs) then Some (xs ! nat i)
      else if - int (length xs) \<le> i \<and> i < 0 then Some (xs ! nat (int (length xs) + i))
      else None)"

text \<open>\<open>range(0, n)\<close> over Python integers: empty when \<open>n \<le> 0\<close>.\<close>

definition py_range0 :: "int \<Rightarrow> int list" where
  "py_range0 n = [0 .. n - 1]"

text \<open>
  \<open>discord.utils.get(guild.roles, name=n)\<close> is the first role of the guild with that name,
  or None; \<open>discord.utils.get(guild.text_channels, name=n)\<close> likewise for channels, which
  are modelled by their names.
\<close>

definition utils_get_role :: "role list \<Rightarrow> string \<Rightarrow> role option" where
  "utils_get_role roles n = find (\<lambda>r. role_name r = n) roles"

definition utils_get_channel :: "string list \<Rightarrow> string \<Rightarrow> string option" where
  "utils_get_channel channels n = find (\<lambda>c. c = n) channels"


section \<open>The table of users\<close>

definition get_user_data :: "bot_state \<Rightarrow> int \<Rightarrow> int \<times> int" where
  "get_user_data s user_id = (case users s user_id of None \<Rightarrow> (0, 0) | Some row \<Rightarrow> row)"

definition update_user_data :: "int \<Rightarrow> int \<Rightarrow> int \<Rightarrow> bot_state \<Rightarrow> bot_state" where
  "update_user_data user_id xp level s =
     s\<lparr>users := (users s)(user_id \<mapsto> (xp, level)),
       trace := trace s @ [Commit user_id xp level]\<rparr>"

definition emit :: "effect list \<Rightarrow> bot_state \<Rightarrow> bot_state" where
  "emit es s = s\<lparr>trace := trace s @ es\<rparr>"

section \<open>Promotion: the role synchronizer\<close>

text \<open>
  \<open>promote_user(member, new_level, guild)\<close> touches no table; it returns the requests it
  makes, in order, and the exception that ended it, if any. \<open>member.roles\<close> is the
  snapshot the bot holds of the member; \<open>remove_roles\<close> and \<open>add_roles\<close> are requests to
  the platform. Reading an attribute of \<open>None\<close> raises AttributeError. The three parts of
  the function body are the loop over the lower levels, the new role and the announcement.
\<close>

fun remove_lower :: "member option \<Rightarrow> guild option \<Rightarrow> int list \<Rightarrow> error option \<times> effect list" where
  "remove_lower member guild [] = (None, [])"
| "remove_lower member guild (level # levels) =
     (case CLEARANCE_ROLES level of
        None \<Rightarrow> remove_lower member guild levels
      | Some name \<Rightarrow>
          (case guild of
             None \<Rightarrow> (Some AttributeError, [])
           | Some g \<Rightarrow>
               (case utils_get_role (guild_roles g) name of
                  None \<Rightarrow> remove_lower member guild levels
                | Some r \<Rightarrow>
                    (case member of
                       None \<Rightarrow> (Some AttributeError, [])
                     | Some m \<Rightarrow>
                         if r \<in> set (member_roles m)
                         then (case remove_lower member guild levels of
                                 (e, es) \<Rightarrow> (e, RemoveRoles (member_id m) r # es))
                         else remove_lower member guild levels))))"

definition add_new_role :: "member option \<Rightarrow> int \<Rightarrow> guild option \<Rightarrow> error option \<times> effect list" where
  "add_new_role member new_level guild =
     (case CLEARANCE_ROLES new_level of
        None \<Rightarrow> (None, [])
      | Some new_role_name \<Rightarrow>
          (case guild of
             None \<Rightarrow> (Some AttributeError, [])
           | Some g \<Rightarrow>
               (case utils_get_role (guild_roles g) new_role_name of
                  None \<Rightarrow> (None, [])
                | Some new_role \<Rightarrow>
                    (case member of
                       None \<Rightarrow> (Some AttributeError, [])
                     | Some m \<Rightarrow> (None, [AddRoles (member_id m) new_role])))))"

definition announce_promotion :: "member option \<Rightarrow> int \<Rightarrow> guild option \<Rightarrow> error option \<times> effect list" where
  "announce_promotion member new_level guild =
     (case guild of
        None \<Rightarrow> (Some AttributeError, [])
      | Some g \<Rightarrow>
          (case utils_get_channel (guild_text_channels g) ''announcements'' of
             None \<Rightarrow> (None, [])
           | Some announcements_channel \<Rightarrow>
               (case member of
                  None \<Rightarrow> (Some AttributeError, [])
                | Some m \<Rightarrow> (None, [Announce (member_id m) (CLEARANCE_ROLES new_level)]))))"

definition promote_user :: "member option \<Rightarrow> int \<Rightarrow> guild option \<Rightarrow> error option \<times> effect list" where
  "promote_user member new_level guild =
     (case remove_lower member guild (py_range0 new_level) of
        (Some e, es) \<Rightarrow> (Some e, es)
      | (None, es) \<Rightarrow>
          (case add_new_role member new_level guild of
             (Some e, es2) \<Rightarrow> (Some e, es @ es2)
           | (None, es2) \<Rightarrow>
               (case announce_promotion member new_level guild of
                  (e, es3) \<Rightarrow> (e, es @ es2 @ es3))))"

section \<open>Onboarding and verification\<close>


text \<open>
  \<open>self.bot.get_guild(payload.guild_id)\<close>: None when the reaction carries no guild id
  or the bot does not know the guild.
\<close>

definition get_guild :: "bot_state \<Rightarrow> int option \<Rightarrow> guild option" where
  "get_guild s guild_id = (case guild_id of None \<Rightarrow> None | Some gid \<Rightarrow> guilds s gid)"

definition on_raw_reaction_add :: "payload \<Rightarrow> bot_state \<Rightarrow> error option \<times> bot_state" where
  "on_raw_reaction_add p s =
     (if Some (payload_message_id p) \<noteq> verification_message_id s then (None, s)
      else if payload_emoji p \<noteq> check_mark then (None, s)
      else
        (case get_guild s (payload_guild_id p) of
           None \<Rightarrow> (Some AttributeError, s)
         | Some guild \<Rightarrow>
             (let member = guild_members guild (payload_user_id p) in
              if (case member of None \<Rightarrow> False | Some m \<Rightarrow> member_bot m) then (None, s)
              else
                (case get_user_data s (payload_user_id p) of
                   (_, current_level) \<Rightarrow>
                     if current_level = 0
                     then (let s1 = update_user_data (payload_user_id p) 0 1 s in
                           case promote_user member 1 (Some guild) of
                             (e, es) \<Rightarrow> (e, emit es s1))
                     else (None, s)))))"

section \<open>Leveling\<close>

definition check_promotion :: "message \<Rightarrow> int \<Rightarrow> int \<Rightarrow> bot_state \<Rightarrow> error option \<times> bot_state" where
  "check_promotion msg xp level s =
     (if level < 10
      then (case py_getitem XP_THRESHOLDS (level + 1) of
              None \<Rightarrow> (Some IndexError, s)
            | Some next_threshold \<Rightarrow>
                if xp \<ge> next_threshold
                then (let new_level = level + 1;
                          s2 = update_user_data (member_id (message_author msg)) xp new_level s
                      in case promote_user (Some (message_author msg)) new_level (message_guild msg) of
                           (e, es) \<Rightarrow> (e, emit es s2))
                else (None, s))
      else (None, s))"

definition on_message :: "message \<Rightarrow> bot_state \<Rightarrow> error option \<times> bot_state" where
  "on_message msg s =
     (if member_bot (message_author msg) then (None, s)
      else
        (case get_user_data s (member_id (message_author msg)) of
           (xp0, level) \<Rightarrow>
             (let xp = xp0 + 1;
                  s1 = update_user_data (member_id (message_author msg)) xp level s
              in case check_promotion msg xp level s1 of
                   (Some e, s') \<Rightarrow> (Some e, s')
                 | (None, s') \<Rightarrow> (None, emit [ProcessCommands] s'))))"

text \<open>
  Events are handled one after another; an exception in a handler ends that handler
  only, and what it committed before stays committed.
\<close>

fun process_messages :: "message list \<Rightarrow> bot_state \<Rightarrow> bot_state" where
  "process_messages [] s = s"
| "process_messages (msg # msgs) s = process_messages msgs (snd (on_message msg s))"

section \<open>The level invariant of the specification\<close>

text \<open>
  \<open>threshold L\<close> is the entry of the table for level \<open>L\<close>; the levels are \<open>0 .. 10\<close>.
  \<open>level_invariant points level\<close> says that \<open>level\<close> is the largest level whose threshold
  is at most \<open>points\<close>.
\<close>

definition MAX_LEVEL :: int where
  "MAX_LEVEL = 10"

definition threshold :: "int \<Rightarrow> int" where
  "threshold L = XP_THRESHOLDS ! nat L"

definition levels_met :: "int \<Rightarrow> int list" where
  "levels_met points = filter (\<lambda>L. threshold L \<le> points) [0 .. MAX_LEVEL]"

definition level_invariant :: "int \<Rightarrow> int \<Rightarrow> bool" where
  "level_invariant points level \<longleftrightarrow>
     levels_met points \<noteq> [] \<and> level = Max (set (levels_met points))"

section \<open>Reading a trace\<close>

text \<open>
  The rows committed, the roles asked to be removed and added, and the promotions
  announced, each in the order of the requests.
\<close>

fun commits :: "effect list \<Rightarrow> (int \<times> int \<times> int) list" where
  "commits [] = []"
| "commits (Commit u x l # es) = (u, x, l) # commits es"
| "commits (e # es) = commits es"

fun to_remove :: "effect list \<Rightarrow> role list" where
  "to_remove [] = []"
| "to_remove (RemoveRoles u r # es) = r # to_remove es"
| "to_remove (e # es) = to_remove es"

fun to_add :: "effect list \<Rightarrow> role list" where
  "to_add [] = []"
| "to_add (AddRoles u r # es) = r # to_add es"
| "to_add (e # es) = to_add es"

fun announcements :: "effect list \<Rightarrow> (int \<times> string option) list" where
  "announcements [] = []"
| "announcements (Announce u n # es) = (u, n) # announcements es"
| "announcements (e # es) = announcements es"

text \<open>
  \<open>promoted xp level\<close> is the test of \<open>on_message\<close> for a promotion, with the new
  points: the level is below 10 and the points reach the entry after the level's.
\<close>

definition promoted :: "int \<Rightarrow> int \<Rightarrow> bool" where
  "promoted xp level \<longleftrightarrow>
     level < 10 \<and> (case py_getitem XP_THRESHOLDS (level + 1) of None \<Rightarrow> False | Some t \<Rightarrow> t \<le> xp)"

section \<open>Roles of levels and the platform's answer\<close>

text \<open>
  The role tag of a level in a guild is the role that \<open>promote_user\<close> finds for the
  level: the guild's first role with the name that \<open>CLEARANCE_ROLES\<close> gives to the level.
  \<open>held_lower m g L\<close> lists the tags of the levels \<open>0 .. L - 1\<close> that the member holds.
\<close>

definition role_of_level :: "guild \<Rightarrow> int \<Rightarrow> role option" where
  "role_of_level g level =
     (case CLEARANCE_ROLES level of
        None \<Rightarrow> None
      | Some name \<Rightarrow> utils_get_role (guild_roles g) name)"

definition held_lower :: "member \<Rightarrow> guild \<Rightarrow> int \<Rightarrow> role list" where
  "held_lower m g L =
     filter (\<lambda>r. r \<in> set (member_roles m)) (List.map_filter (role_of_level g) (py_range0 L))"

text \<open>
  The platform carries the requests out on the member they name: a removed role leaves
  the member's roles, an added role joins them unless it is there already, and nothing
  else changes the roles. \<open>resync m L g\<close> is the member after one run of \<open>promote_user\<close>
  for level \<open>L\<close> has been carried out.
\<close>

fun apply_request :: "member \<Rightarrow> effect \<Rightarrow> member" where
  "apply_request m (RemoveRoles u r) =
     (if u = member_id m then m\<lparr>member_roles := removeAll r (member_roles m)\<rparr> else m)"
| "apply_request m (AddRoles u r) =
     (if u = member_id m \<and> r \<notin> set (member_roles m)
      then m\<lparr>member_roles := member_roles m @ [r]\<rparr> else m)"
| "apply_request m e = m"

definition apply_delta :: "effect list \<Rightarrow> member \<Rightarrow> member" where
  "apply_delta es m = foldl apply_request m es"

definition resync :: "member \<Rightarrow> int \<Rightarrow> guild \<Rightarrow> member" where
  "resync m L g = apply_delta (snd (promote_user (Some m) L (Some g))) m"

section \<open>Example inputs\<close>

definition recruit :: role where
  "recruit = \<lparr>role_id = 100, role_name = ''CL-0: Recruit''\<rparr>"

definition initiate :: role where
  "initiate = \<lparr>role_id = 101, role_name = ''CL-1: Initiate''\<rparr>"

definition senior :: role where
  "senior = \<lparr>role_id = 105, role_name = ''CL-5: Senior Agent''\<rparr>"

definition alice :: member where
  "alice = \<lparr>member_id = 7, member_bot = False, member_roles = [recruit]\<rparr>"

definition robot :: member where
  "robot = \<lparr>member_id = 9, member_bot = True, member_roles = []\<rparr>"

definition hq :: guild where
  "hq = \<lparr>guild_roles = [recruit, initiate, senior],
         guild_text_channels = [''welcome'', ''verification'', ''announcements''],
         guild_members = [7 \<mapsto> alice, 9 \<mapsto> robot]\<rparr>"

definition hello :: message where
  "hello = \<lparr>message_author = alice, message_guild = Some hq\<rparr>"

definition start :: bot_state where
  "start = \<lparr>users = Map.empty, verification_message_id = Some 555,
            guilds = [1 \<mapsto> hq], trace = []\<rparr>"

definition carol :: member where
  "carol = \<lparr>member_id = 8, member_bot = False, member_roles = [recruit, initiate, senior]\<rparr>"

definition outpost :: guild where
  "outpost = \<lparr>guild_roles = [initiate], guild_text_channels = [''announcements''],
              guild_members = [8 \<mapsto> carol]\<rparr>"

definition beep :: message where
  "beep = \<lparr>message_author = robot, message_guild = Some hq\<rparr>"

definition react :: payload where
  "react = \<lparr>payload_message_id = 555, payload_emoji = check_mark,
            payload_guild_id = Some 1, payload_user_id = 7\<rparr>"

definition robot_react :: payload where
  "robot_react = \<lparr>payload_message_id = 555, payload_emoji = check_mark,
                  payload_guild_id = Some 1, payload_user_id = 9\<rparr>"

text \<open>Tables in which the member 7 has a row already.\<close>

definition nearly :: bot_state where
  "nearly = start\<lparr>users := [7 \<mapsto> (99, 0)]\<rparr>"



definition master :: bot_state where
  "master = start\<lparr>users := [7 \<mapsto> (6000, 10)]\<rparr>"

section \<open>The threshold table\<close>

lemma upto_0_10: "[0 .. (10::int)] = [0,1,2,3,4,5,6,7,8,9,10]"
  by (simp add: upto_rec1)

lemma level_cases: "0 \<le> (a::int) \<Longrightarrow> a \<le> 10 \<Longrightarrow> a \<in> {0,1,2,3,4,5,6,7,8,9,10}"
proof -
  assume "0 \<le> a" "a \<le> 10"
  then have "a \<in> set [0 .. 10]" by simp
  then show ?thesis unfolding upto_0_10 by simp
qed

lemma threshold_values:
  "threshold 0 = 0" "threshold 1 = 100" "threshold 2 = 300" "threshold 3 = 600"
  "threshold 4 = 1000" "threshold 5 = 1500" "threshold 6 = 2100" "threshold 7 = 2800"
  "threshold 8 = 3600" "threshold 9 = 4500" "threshold 10 = 5500"
  by (simp_all add: threshold_def XP_THRESHOLDS_def)

text \<open>Consecutive thresholds are more than one point apart.\<close>

lemma threshold_step: "0 \<le> a \<Longrightarrow> a < 10 \<Longrightarrow> threshold a + 1 < threshold (a + 1)"
proof -
  assume "0 \<le> a" "a < 10"
  then have "a \<in> {0,1,2,3,4,5,6,7,8,9,10}" and "a \<noteq> 10"
    by (simp_all add: level_cases del: insert_iff)
  then show ?thesis by (auto simp: threshold_values)
qed

lemma threshold_mono: "0 \<le> a \<Longrightarrow> a \<le> b \<Longrightarrow> b \<le> 10 \<Longrightarrow> threshold a \<le> threshold b"
proof -
  assume h: "0 \<le> a" "a \<le> b" "b \<le> 10"
  then have "a \<in> {0,1,2,3,4,5,6,7,8,9,10}" and "b \<in> {0,1,2,3,4,5,6,7,8,9,10}"
    by (simp_all add: level_cases del: insert_iff)
  with h(2) show ?thesis by (auto simp: threshold_values)
qed

text \<open>One more point reaches at most one threshold that the points before did not.\<close>

lemma one_point_reaches_one_threshold:
  assumes "0 \<le> a" "a \<le> 10" "0 \<le> b" "b \<le> 10"
    and "xp < threshold a" "threshold a \<le> xp + 1"
    and "xp < threshold b" "threshold b \<le> xp + 1"
  shows "a = b"
proof (rule ccontr)
  assume ne: "a \<noteq> b"
  have eq: "threshold a = threshold b" using assms(5-8) by simp
  have strict: "threshold c < threshold d" if "0 \<le> c" "c < d" "d \<le> 10" for c d
  proof -
    have "threshold c + 1 < threshold (c + 1)" using that by (intro threshold_step) simp_all
    moreover have "threshold (c + 1) \<le> threshold d" using that by (intro threshold_mono) simp_all
    ultimately show ?thesis by simp
  qed
  show False
  proof (cases "a < b")
    case True
    then show ?thesis using strict [of a b] assms(1,4) eq by simp
  next
    case False
    then have "b < a" using ne by simp
    then show ?thesis using strict [of b a] assms(2,3) eq by simp
  qed
qed

lemma set_levels_met: "set (levels_met p) = {L. 0 \<le> L \<and> L \<le> 10 \<and> threshold L \<le> p}"
  by (auto simp: levels_met_def MAX_LEVEL_def)

text \<open>The invariant, without the maximum: the level's threshold is met and the next is not.\<close>

lemma level_invariant_iff:
  "level_invariant p l \<longleftrightarrow>
     0 \<le> l \<and> l \<le> 10 \<and> threshold l \<le> p \<and> (l < 10 \<longrightarrow> p < threshold (l + 1))"
proof
  assume inv: "level_invariant p l"
  let ?S = "set (levels_met p)"
  have ne: "?S \<noteq> {}" and l: "l = Max ?S" using inv by (auto simp: level_invariant_def)
  have "l \<in> ?S" unfolding l using ne by (intro Max_in) auto
  then have a: "0 \<le> l" "l \<le> 10" "threshold l \<le> p" by (auto simp: set_levels_met)
  have "p < threshold (l + 1)" if "l < 10"
  proof (rule ccontr)
    assume "\<not> p < threshold (l + 1)"
    then have "l + 1 \<in> ?S" using a that by (auto simp: set_levels_met)
    then have "l + 1 \<le> Max ?S" by (intro Max_ge) auto
    then show False using l by simp
  qed
  with a show "0 \<le> l \<and> l \<le> 10 \<and> threshold l \<le> p \<and> (l < 10 \<longrightarrow> p < threshold (l + 1))"
    by simp
next
  assume h: "0 \<le> l \<and> l \<le> 10 \<and> threshold l \<le> p \<and> (l < 10 \<longrightarrow> p < threshold (l + 1))"
  let ?S = "set (levels_met p)"
  have in_S: "l \<in> ?S" using h by (auto simp: set_levels_met)
  have ub: "y \<le> l" if "y \<in> ?S" for y
  proof (rule ccontr)
    assume "\<not> y \<le> l"
    then have yl: "l + 1 \<le> y" by simp
    have y: "0 \<le> y" "y \<le> 10" "threshold y \<le> p" using that by (auto simp: set_levels_met)
    have "threshold (l + 1) \<le> threshold y" using h yl y by (intro threshold_mono) auto
    moreover have "p < threshold (l + 1)" using h yl y by auto
    ultimately show False using y by simp
  qed
  have "Max ?S = l" using in_S ub by (intro Max_eqI) auto
  then show "level_invariant p l" using in_S by (auto simp: level_invariant_def)
qed

lemma level_invariant_zero: "level_invariant 0 0"
  by (simp add: level_invariant_iff threshold_values)

section \<open>The table and the trace under the handlers\<close>

lemma commits_append: "commits (xs @ ys) = commits xs @ commits ys"
  by (induction xs rule: commits.induct) simp_all

lemma users_update_user_data:
  "users (update_user_data u x l s) = (users s)(u \<mapsto> (x, l))"
  by (simp add: update_user_data_def)

lemma trace_update_user_data:
  "trace (update_user_data u x l s) = trace s @ [Commit u x l]"
  by (simp add: update_user_data_def)

lemma users_emit: "users (emit es s) = users s"
  by (simp add: emit_def)

lemma trace_emit: "trace (emit es s) = trace s @ es"
  by (simp add: emit_def)

lemma py_getitem_threshold:
  "- 1 \<le> l \<Longrightarrow> l < 10 \<Longrightarrow> py_getitem XP_THRESHOLDS (l + 1) = Some (threshold (l + 1))"
  by (simp add: py_getitem_def threshold_def XP_THRESHOLDS_def)

lemma promoted_iff:
  "0 \<le> level \<Longrightarrow> promoted xp level \<longleftrightarrow> level < 10 \<and> threshold (level + 1) \<le> xp"
  by (auto simp: promoted_def py_getitem_threshold)

lemma check_promotion_users:
  "users (snd (check_promotion msg xp level s)) =
     (if promoted xp level
      then (users s)(member_id (message_author msg) \<mapsto> (xp, level + 1)) else users s)"
  by (simp add: check_promotion_def promoted_def users_emit users_update_user_data Let_def
      split: option.splits prod.splits)

lemma on_message_users:
  assumes "\<not> member_bot (message_author msg)"
    and "get_user_data s (member_id (message_author msg)) = (xp, level)"
  shows "users (snd (on_message msg s)) =
     (users s)(member_id (message_author msg) \<mapsto>
        (xp + 1, if promoted (xp + 1) level then level + 1 else level))"
proof -
  let ?s1 = "update_user_data (member_id (message_author msg)) (xp + 1) level s"
  have "users (snd (on_message msg s)) = users (snd (check_promotion msg (xp + 1) level ?s1))"
    using assms by (simp add: on_message_def Let_def users_emit split: prod.splits option.splits)
  then show ?thesis
    by (simp add: check_promotion_users users_update_user_data)
qed

lemma on_message_record:
  assumes "\<not> member_bot (message_author msg)"
    and "get_user_data s (member_id (message_author msg)) = (xp, level)"
  shows "get_user_data (snd (on_message msg s)) (member_id (message_author msg)) =
     (xp + 1, if promoted (xp + 1) level then level + 1 else level)"
  by (simp add: get_user_data_def on_message_users [OF assms])

text \<open>One more point keeps the invariant, because the next threshold is met exactly.\<close>

lemma invariant_step:
  assumes "level_invariant xp level"
  shows "level_invariant (xp + 1) (if promoted (xp + 1) level then level + 1 else level)"
proof -
  have h: "0 \<le> level" "level \<le> 10" "threshold level \<le> xp"
    "level < 10 \<longrightarrow> xp < threshold (level + 1)"
    using assms by (simp_all add: level_invariant_iff)
  show ?thesis
  proof (cases "promoted (xp + 1) level")
    case True
    then have p: "level < 10" "threshold (level + 1) \<le> xp + 1"
      using h(1) by (simp_all add: promoted_iff)
    have "xp + 1 < threshold (level + 1 + 1)" if "level + 1 < 10"
      using threshold_step [of "level + 1"] h p that by simp
    with True h p show ?thesis by (simp add: level_invariant_iff)
  next
    case False
    then have "level < 10 \<longrightarrow> xp + 1 < threshold (level + 1)"
      using h(1) by (auto simp: promoted_iff)
    with False h show ?thesis by (simp add: level_invariant_iff)
  qed
qed

lemma process_messages_invariant:
  assumes "\<forall>msg \<in> set msgs. member_id (message_author msg) = uid \<and> \<not> member_bot (message_author msg)"
    and "get_user_data s uid = (xp, level)"
    and "level_invariant xp level"
  shows "\<exists>level'. get_user_data (process_messages msgs s) uid = (xp + int (length msgs), level')
           \<and> level_invariant (xp + int (length msgs)) level'"
  using assms
proof (induction msgs arbitrary: s xp level)
  case Nil
  then show ?case by simp
next
  case (Cons msg msgs)
  let ?s1 = "snd (on_message msg s)"
  let ?l1 = "if promoted (xp + 1) level then level + 1 else level"
  have a: "member_id (message_author msg) = uid" "\<not> member_bot (message_author msg)"
    using Cons.prems(1) by simp_all
  have r: "get_user_data ?s1 uid = (xp + 1, ?l1)"
    using on_message_record [of msg s xp level] a Cons.prems(2) by simp
  have i: "level_invariant (xp + 1) ?l1" using Cons.prems(3) by (rule invariant_step)
  have "\<exists>level'. get_user_data (process_messages msgs ?s1) uid = (xp + 1 + int (length msgs), level')
           \<and> level_invariant (xp + 1 + int (length msgs)) level'"
    using Cons.prems(1) r i by (intro Cons.IH) simp_all
  then show ?case by (simp add: algebra_simps)
qed

lemma get_user_data_update:
  "get_user_data (update_user_data u x l s) v = (if v = u then (x, l) else get_user_data s v)"
  by (simp add: get_user_data_def update_user_data_def)

lemma get_user_data_emit: "get_user_data (emit es s) v = get_user_data s v"
  by (simp add: get_user_data_def emit_def)

lemma on_message_bot: "member_bot (message_author msg) \<Longrightarrow> on_message msg s = (None, s)"
  by (simp add: on_message_def)



text \<open>\<open>promote_user\<close> commits nothing.\<close>

lemma commits_remove_lower: "commits (snd (remove_lower m g ls)) = []"
  by (induction ls) (auto split: option.splits prod.splits)

lemma commits_promote_user: "commits (snd (promote_user m L g)) = []"
proof -
  have a: "commits (snd (add_new_role m L g)) = []"
    by (simp add: add_new_role_def split: option.splits)
  have b: "commits (snd (announce_promotion m L g)) = []"
    by (simp add: announce_promotion_def split: option.splits)
  show ?thesis
    using commits_remove_lower [of m g "py_range0 L"] a b
    by (auto simp: promote_user_def commits_append split: prod.splits option.splits)
qed

lemma check_promotion_trace:
  "\<exists>es. trace (snd (check_promotion msg xp level s)) = trace s @ es \<and>
     commits es =
       (if promoted xp level then [(member_id (message_author msg), xp, level + 1)] else [])"
proof (cases "promoted xp level")
  case True
  let ?u = "member_id (message_author msg)"
  obtain e es where
    p: "promote_user (Some (message_author msg)) (level + 1) (message_guild msg) = (e, es)"
    by (cases "promote_user (Some (message_author msg)) (level + 1) (message_guild msg)")
  have c: "commits es = []"
    using commits_promote_user [of "Some (message_author msg)" "level + 1" "message_guild msg"] p
    by simp
  have "trace (snd (check_promotion msg xp level s)) = trace s @ (Commit ?u xp (level + 1) # es)"
    using True p
    by (simp add: check_promotion_def promoted_def trace_emit trace_update_user_data Let_def
        split: option.splits)
  then show ?thesis using True c by (intro exI [of _ "Commit ?u xp (level + 1) # es"]) simp
next
  case False
  then have "trace (snd (check_promotion msg xp level s)) = trace s @ []"
    by (auto simp: check_promotion_def promoted_def split: option.splits)
  then show ?thesis using False by (intro exI [of _ "[]"]) simp
qed

lemma on_message_trace:
  assumes "\<not> member_bot (message_author msg)"
    and "get_user_data s (member_id (message_author msg)) = (xp, level)"
  shows "\<exists>es. trace (snd (on_message msg s)) = trace s @ es \<and>
     commits es =
       (if promoted (xp + 1) level
        then [(member_id (message_author msg), xp + 1, level),
              (member_id (message_author msg), xp + 1, level + 1)]
        else [(member_id (message_author msg), xp + 1, level)])"
proof -
  let ?u = "member_id (message_author msg)"
  let ?s1 = "update_user_data ?u (xp + 1) level s"
  obtain es where es: "trace (snd (check_promotion msg (xp + 1) level ?s1)) = trace ?s1 @ es"
    "commits es = (if promoted (xp + 1) level then [(?u, xp + 1, level + 1)] else [])"
    using check_promotion_trace [of msg "xp + 1" level ?s1] by blast
  obtain e s' where c: "check_promotion msg (xp + 1) level ?s1 = (e, s')"
    by (cases "check_promotion msg (xp + 1) level ?s1")
  let ?tail = "case e of None \<Rightarrow> [ProcessCommands] | Some x \<Rightarrow> []"
  have "trace (snd (on_message msg s)) = trace s' @ ?tail"
    using assms c by (simp add: on_message_def Let_def trace_emit split: option.splits)
  then have "trace (snd (on_message msg s)) = trace s @ (Commit ?u (xp + 1) level # es @ ?tail)"
    using es(1) c by (simp add: trace_update_user_data)
  moreover have "commits (Commit ?u (xp + 1) level # es @ ?tail)
      = (if promoted (xp + 1) level then [(?u, xp + 1, level), (?u, xp + 1, level + 1)]
         else [(?u, xp + 1, level)])"
    using es(2) by (simp add: commits_append split: option.splits)
  ultimately show ?thesis by blast
qed

section \<open>Verification and joining\<close>

lemma get_guild_emit: "get_guild (emit es s) i = get_guild s i"
  by (simp add: get_guild_def emit_def split: option.splits)

lemma get_guild_update: "get_guild (update_user_data u x l s) i = get_guild s i"
  by (simp add: get_guild_def update_user_data_def split: option.splits)

lemma reaction_unfold:
  assumes "Some (payload_message_id p) = verification_message_id s"
    and "payload_emoji p = check_mark"
    and "get_guild s (payload_guild_id p) = Some g"
    and "\<not> (case guild_members g (payload_user_id p) of None \<Rightarrow> False | Some m \<Rightarrow> member_bot m)"
  shows "on_raw_reaction_add p s =
     (if snd (get_user_data s (payload_user_id p)) = 0
      then (fst (promote_user (guild_members g (payload_user_id p)) 1 (Some g)),
            emit (snd (promote_user (guild_members g (payload_user_id p)) 1 (Some g)))
              (update_user_data (payload_user_id p) 0 1 s))
      else (None, s))"
  using assms by (simp add: on_raw_reaction_add_def Let_def split: prod.splits)



section \<open>The requests of a promotion\<close>

text \<open>Two levels never share a role name, so they never share a role tag.\<close>

lemma clearance_roles_inj:
  "CLEARANCE_ROLES a = Some n \<Longrightarrow> CLEARANCE_ROLES b = Some n \<Longrightarrow> a = b"
  by (auto simp: CLEARANCE_ROLES_def split: if_splits)

lemma role_of_level_name:
  "role_of_level g level = Some r \<Longrightarrow> CLEARANCE_ROLES level = Some (role_name r)"
  by (auto simp: role_of_level_def utils_get_role_def find_Some_iff split: option.splits)

lemma role_of_level_inj:
  "role_of_level g a = Some r \<Longrightarrow> role_of_level g b = Some r \<Longrightarrow> a = b"
  using clearance_roles_inj role_of_level_name by blast

lemma utils_get_channel_eq:
  "utils_get_channel cs n = (if n \<in> set cs then Some n else None)"
  by (induction cs) (auto simp: utils_get_channel_def)

lemma remove_lower_present:
  "remove_lower (Some m) (Some g) ls =
     (None, map (RemoveRoles (member_id m))
        (filter (\<lambda>r. r \<in> set (member_roles m)) (List.map_filter (role_of_level g) ls)))"
  by (induction ls) (auto simp: role_of_level_def List.map_filter_simps split: option.splits)

text \<open>With a member and a guild at hand, a promotion raises nothing and asks for this.\<close>

lemma promote_user_present:
  "promote_user (Some m) L (Some g) =
     (None, map (RemoveRoles (member_id m)) (held_lower m g L)
        @ (case role_of_level g L of None \<Rightarrow> [] | Some r \<Rightarrow> [AddRoles (member_id m) r])
        @ (if ''announcements'' \<in> set (guild_text_channels g)
           then [Announce (member_id m) (CLEARANCE_ROLES L)] else []))"
  by (simp add: promote_user_def remove_lower_present add_new_role_def announce_promotion_def
      utils_get_channel_eq role_of_level_def held_lower_def split: option.splits)

lemma to_remove_append: "to_remove (xs @ ys) = to_remove xs @ to_remove ys"
  by (induction xs rule: to_remove.induct) simp_all

lemma to_add_append: "to_add (xs @ ys) = to_add xs @ to_add ys"
  by (induction xs rule: to_add.induct) simp_all

lemma announcements_append: "announcements (xs @ ys) = announcements xs @ announcements ys"
  by (induction xs rule: announcements.induct) simp_all

lemma to_remove_map: "to_remove (map (RemoveRoles u) rs) = rs"
  by (induction rs) simp_all

lemma to_add_map: "to_add (map (RemoveRoles u) rs) = []"
  by (induction rs) simp_all

lemma announcements_map: "announcements (map (RemoveRoles u) rs) = []"
  by (induction rs) simp_all

lemma promote_user_to_remove:
  "to_remove (snd (promote_user (Some m) L (Some g))) = held_lower m g L"
  by (simp add: promote_user_present to_remove_append to_remove_map split: option.splits)

lemma promote_user_to_add:
  "to_add (snd (promote_user (Some m) L (Some g))) =
     (case role_of_level g L of None \<Rightarrow> [] | Some r \<Rightarrow> [r])"
  by (simp add: promote_user_present to_add_append to_add_map split: option.splits)

lemma promote_user_announcements:
  "announcements (snd (promote_user (Some m) L (Some g))) =
     (if ''announcements'' \<in> set (guild_text_channels g)
      then [(member_id m, CLEARANCE_ROLES L)] else [])"
  by (simp add: promote_user_present announcements_append announcements_map split: option.splits)

lemma set_py_range0: "set (py_range0 L) = {level. 0 \<le> level \<and> level < L}"
  by (auto simp: py_range0_def)

lemma set_held_lower:
  "set (held_lower m g L) =
     {r \<in> set (member_roles m). \<exists>level. 0 \<le> level \<and> level < L \<and> role_of_level g level = Some r}"
proof -
  have "set (List.map_filter (role_of_level g) (py_range0 L)) =
      {r. \<exists>level. 0 \<le> level \<and> level < L \<and> role_of_level g level = Some r}"
    by (force simp: List.map_filter_def set_py_range0 image_iff)
  then show ?thesis by (auto simp: held_lower_def)
qed

lemma member_id_apply: "member_id (foldl apply_request m es) = member_id m"
proof (induction es arbitrary: m)
  case Nil
  then show ?case by simp
next
  case (Cons e es)
  have "member_id (apply_request m e) = member_id m" by (cases e) simp_all
  then show ?case using Cons.IH [of "apply_request m e"] by simp
qed

lemma roles_after_removals:
  "set (member_roles (foldl apply_request m (map (RemoveRoles (member_id m)) rs)))
     = set (member_roles m) - set rs"
proof (induction rs arbitrary: m)
  case Nil
  then show ?case by simp
next
  case (Cons a rs)
  let ?m' = "m\<lparr>member_roles := removeAll a (member_roles m)\<rparr>"
  have "set (member_roles (foldl apply_request ?m' (map (RemoveRoles (member_id ?m')) rs)))
     = set (member_roles ?m') - set rs"
    by (rule Cons.IH)
  then show ?case by auto
qed

lemma apply_delta_append: "apply_delta (xs @ ys) m = apply_delta ys (apply_delta xs m)"
  by (simp add: apply_delta_def)

lemma roles_after_resync:
  "set (member_roles (resync m L g)) =
     (set (member_roles m) - set (held_lower m g L))
       \<union> (case role_of_level g L of None \<Rightarrow> {} | Some r \<Rightarrow> {r})"
proof -
  let ?m1 = "apply_delta (map (RemoveRoles (member_id m)) (held_lower m g L)) m"
  have i: "member_id ?m1 = member_id m" by (simp add: apply_delta_def member_id_apply)
  have r: "set (member_roles ?m1) = set (member_roles m) - set (held_lower m g L)"
    by (simp add: apply_delta_def roles_after_removals)
  show ?thesis
    using i r
    by (auto simp: resync_def promote_user_present apply_delta_append apply_delta_def
        split: option.splits)
qed

lemma held_lower_after_resync: "held_lower (resync m L g) g L = []"
proof -
  let ?m1 = "resync m L g"
  have "r \<notin> set (held_lower ?m1 g L)" for r
  proof
    assume "r \<in> set (held_lower ?m1 g L)"
    then obtain l where l: "r \<in> set (member_roles ?m1)" "0 \<le> l" "l < L"
      "role_of_level g l = Some r"
      unfolding set_held_lower by blast
    have "r \<in> set (member_roles m) - set (held_lower m g L) \<or> role_of_level g L = Some r"
      using l(1) unfolding roles_after_resync by (auto split: option.splits)
    then show False
    proof
      assume "r \<in> set (member_roles m) - set (held_lower m g L)"
      then show False using l by (auto simp: set_held_lower)
    next
      assume "role_of_level g L = Some r"
      then have "L = l" using l(4) by (rule role_of_level_inj)
      then show False using l(3) by simp
    qed
  qed
  then show ?thesis by (cases "held_lower ?m1 g L") auto
qed

section \<open>Claims\<close>

text \<open>
  C1. Activity messages of one member who is not a bot, handled one after another from a
  table where the member has no row or the row of zeros: after every number \<open>k\<close> of them
  the member's row, as read and (from the first message on) as stored, holds \<open>k\<close> points
  and a level that is the largest level whose threshold is at most \<open>k\<close>. Every message
  adds one point, the only delta the handler has.
\<close>

theorem activity_keeps_level_invariant:
  assumes "\<forall>msg \<in> set msgs. member_id (message_author msg) = uid \<and> \<not> member_bot (message_author msg)"
    and "users s uid = None \<or> users s uid = Some (0, 0)"
  shows "\<forall>k \<le> length msgs. \<exists>level.
           get_user_data (process_messages (take k msgs) s) uid = (int k, level)
           \<and> level_invariant (int k) level
           \<and> (0 < k \<longrightarrow> users (process_messages (take k msgs) s) uid = Some (int k, level))"
proof (intro allI impI)
  fix k assume k: "k \<le> length msgs"
  have f: "get_user_data s uid = (0, 0)" using assms(2) by (auto simp: get_user_data_def)
  have m: "\<forall>msg \<in> set (take k msgs).
             member_id (message_author msg) = uid \<and> \<not> member_bot (message_author msg)"
    using assms(1) by (auto dest: in_set_takeD)
  have "length (take k msgs) = k" using k by simp
  then obtain level where l:
    "get_user_data (process_messages (take k msgs) s) uid = (int k, level)"
    "level_invariant (int k) level"
    using process_messages_invariant [OF m f level_invariant_zero] by auto
  have "users (process_messages (take k msgs) s) uid = Some (int k, level)" if "0 < k"
    using l(1) that by (auto simp: get_user_data_def split: option.splits)
  with l show "\<exists>level. get_user_data (process_messages (take k msgs) s) uid = (int k, level)
           \<and> level_invariant (int k) level
           \<and> (0 < k \<longrightarrow> users (process_messages (take k msgs) s) uid = Some (int k, level))"
    by blast
qed

theorem activity_keeps_level_invariant_witness:
  "member_id (message_author hello) = 7 \<and> \<not> member_bot (message_author hello)
   \<and> users start 7 = None
   \<and> (\<exists>level.
        users (process_messages (take 100 (replicate 120 hello)) start) 7 = Some (100, level)
        \<and> level_invariant 100 level)"
proof -
  have a: "\<forall>msg \<in> set (replicate 120 hello).
      member_id (message_author msg) = 7 \<and> \<not> member_bot (message_author msg)"
    by (simp add: hello_def alice_def)
  have b: "users start 7 = None" by (simp add: start_def)
  have c: "users start 7 = None \<or> users start 7 = Some (0, 0)" using b by simp
  have "\<exists>level.
        get_user_data (process_messages (take 100 (replicate 120 hello)) start) 7 = (int 100, level)
        \<and> level_invariant (int 100) level
        \<and> ((0::nat) < 100 \<longrightarrow>
             users (process_messages (take 100 (replicate 120 hello)) start) 7 = Some (int 100, level))"
    using activity_keeps_level_invariant [OF a c, rule_format, of 100] by simp
  then have "\<exists>level.
        users (process_messages (take 100 (replicate 120 hello)) start) 7 = Some (100, level)
        \<and> level_invariant 100 level"
    by auto
  then show ?thesis using a b by simp
qed




text \<open>
  C4. A reaction that passes the filters of the verification handler (it is on the
  verification message, it is the check mark, its guild is known, and the reacting member
  is not known to be a bot): when the stored level is 0 the handler writes level 1 and
  promotes, with the role requests and the announcement of \<open>promote_user\<close> for level 1;
  when the stored level is not 0 it changes nothing; and delivering the same reaction a
  second time changes nothing in either case.
\<close>

theorem verification_promotes_once:
  assumes "Some (payload_message_id p) = verification_message_id s"
    and "payload_emoji p = check_mark"
    and "get_guild s (payload_guild_id p) = Some g"
    and "\<not> (case guild_members g (payload_user_id p) of None \<Rightarrow> False | Some m \<Rightarrow> member_bot m)"
    and "get_user_data s (payload_user_id p) = (xp, level)"
  shows "(level = 0 \<longrightarrow>
            on_raw_reaction_add p s =
              (fst (promote_user (guild_members g (payload_user_id p)) 1 (Some g)),
               emit (snd (promote_user (guild_members g (payload_user_id p)) 1 (Some g)))
                 (update_user_data (payload_user_id p) 0 1 s))
            \<and> snd (get_user_data (snd (on_raw_reaction_add p s)) (payload_user_id p)) = 1)
       \<and> (level \<noteq> 0 \<longrightarrow> on_raw_reaction_add p s = (None, s))
       \<and> on_raw_reaction_add p (snd (on_raw_reaction_add p s))
           = (None, snd (on_raw_reaction_add p s))"
proof -
  let ?u = "payload_user_id p"
  let ?pr = "promote_user (guild_members g ?u) 1 (Some g)"
  let ?s1 = "emit (snd ?pr) (update_user_data ?u 0 1 s)"
  note first = reaction_unfold [OF assms(1-4)]
  have rec: "get_user_data ?s1 ?u = (0, 1)"
    by (simp add: get_user_data_emit get_user_data_update)
  have v: "Some (payload_message_id p) = verification_message_id ?s1"
    using assms(1) by (simp add: emit_def update_user_data_def)
  have gg: "get_guild ?s1 (payload_guild_id p) = Some g"
    using assms(3) by (simp add: get_guild_emit get_guild_update)
  have again: "on_raw_reaction_add p ?s1 = (None, ?s1)"
    using reaction_unfold [OF v assms(2) gg assms(4)] rec by simp
  have twice: "on_raw_reaction_add p (snd (on_raw_reaction_add p s))
      = (None, snd (on_raw_reaction_add p s))"
  proof (cases "level = 0")
    case True
    then show ?thesis using first assms(5) again by simp
  next
    case False
    then show ?thesis using first assms(5) by simp
  qed
  show ?thesis using first assms(5) rec twice by simp
qed

theorem verification_promotes_once_witness:
  "Some (payload_message_id react) = verification_message_id start
   \<and> payload_emoji react = check_mark
   \<and> get_guild start (payload_guild_id react) = Some hq
   \<and> guild_members hq (payload_user_id react) = Some alice
   \<and> \<not> member_bot alice
   \<and> get_user_data start (payload_user_id react) = (0, 0)
   \<and> snd (get_user_data (snd (on_raw_reaction_add react start)) (payload_user_id react)) = 1
   \<and> on_raw_reaction_add react (snd (on_raw_reaction_add react start))
       = (None, snd (on_raw_reaction_add react start))"
proof -
  have a: "Some (payload_message_id react) = verification_message_id start"
    by (simp add: react_def start_def)
  have b: "payload_emoji react = check_mark" by (simp add: react_def)
  have c: "get_guild start (payload_guild_id react) = Some hq"
    by (simp add: get_guild_def react_def start_def)
  have d1: "guild_members hq (payload_user_id react) = Some alice"
    by (simp add: hq_def react_def)
  have d2: "\<not> member_bot alice" by (simp add: alice_def)
  have d: "\<not> (case guild_members hq (payload_user_id react) of
                 None \<Rightarrow> False | Some m \<Rightarrow> member_bot m)"
    using d1 d2 by simp
  have e: "get_user_data start (payload_user_id react) = (0, 0)"
    by (simp add: get_user_data_def start_def)
  note t = verification_promotes_once [OF a b c d e]
  have t1: "snd (get_user_data (snd (on_raw_reaction_add react start)) (payload_user_id react)) = 1"
    using t by blast
  have t2: "on_raw_reaction_add react (snd (on_raw_reaction_add react start))
       = (None, snd (on_raw_reaction_add react start))"
    using t by blast
  show ?thesis using a b c d1 d2 e t1 t2 by blast
qed

text \<open>
  C5, as amended. The claim says that the new points and the new level are persisted in
  one write. What holds: handling an activity message of a member who is not a bot
  commits the new points with the old level first and, when the member is promoted, the
  new points with the new level in a second commit; nothing else is committed. When the
  row met the level invariant before the message, the last row committed meets it, and
  the first of two rows committed does not.
\<close>

theorem activity_commits:
  assumes "\<not> member_bot (message_author msg)"
    and "get_user_data s (member_id (message_author msg)) = (xp, level)"
  shows "(\<exists>es. trace (snd (on_message msg s)) = trace s @ es \<and>
            commits es =
              (if promoted (xp + 1) level
               then [(member_id (message_author msg), xp + 1, level),
                     (member_id (message_author msg), xp + 1, level + 1)]
               else [(member_id (message_author msg), xp + 1, level)]))
     \<and> (level_invariant xp level \<longrightarrow>
          level_invariant (xp + 1) (if promoted (xp + 1) level then level + 1 else level))
     \<and> (level_invariant xp level \<and> promoted (xp + 1) level \<longrightarrow>
          \<not> level_invariant (xp + 1) level)"
proof -
  have "\<not> level_invariant (xp + 1) level" if "level_invariant xp level" "promoted (xp + 1) level"
  proof -
    have "0 \<le> level" using that(1) by (simp add: level_invariant_iff)
    then have "level < 10" "threshold (level + 1) \<le> xp + 1"
      using that(2) by (simp_all add: promoted_iff)
    then show ?thesis by (simp add: level_invariant_iff)
  qed
  then show ?thesis
    using on_message_trace [OF assms] invariant_step [of xp level] by blast
qed

theorem activity_commits_witness:
  "\<not> member_bot (message_author hello)
   \<and> get_user_data nearly (member_id (message_author hello)) = (99, 0)
   \<and> level_invariant 99 0
   \<and> promoted (99 + 1) 0
   \<and> (\<exists>es. trace (snd (on_message hello nearly)) = trace nearly @ es \<and>
          commits es = [(member_id (message_author hello), 99 + 1, 0),
                        (member_id (message_author hello), 99 + 1, 0 + 1)])
   \<and> level_invariant (99 + 1) (0 + 1)
   \<and> \<not> level_invariant (99 + 1) 0"
proof -
  have a: "\<not> member_bot (message_author hello)" by (simp add: hello_def alice_def)
  have b: "get_user_data nearly (member_id (message_author hello)) = (99, 0)"
    by (simp add: get_user_data_def nearly_def hello_def alice_def)
  have c: "level_invariant 99 0" by (simp add: level_invariant_iff threshold_values)
  have d: "promoted (99 + 1) 0" by (simp add: promoted_iff threshold_values)
  show ?thesis using activity_commits [OF a b] a b c d by simp
qed

text \<open>
  C5 as stated fails: with 99 points stored at level 0, one message commits the row
  (100 points, level 0), which breaks the level invariant, and then the row
  (100 points, level 1).
\<close>

theorem points_and_level_in_two_commits:
  "get_user_data nearly 7 = (99, 0)
   \<and> commits (trace (snd (on_message hello nearly))) = [(7, 100, 0), (7, 100, 1)]
   \<and> \<not> level_invariant 100 0"
  by code_simp

text \<open>
  C6, as amended. The claim says that the second run asks for nothing. What holds: after
  one run of \<open>promote_user\<close> for a member and a level has been carried out, a second run
  for the same level asks for no removal and leaves the member's roles as they are; it
  asks again for the role of the level to be added whenever the guild has that role,
  because the role is added without looking at the member's roles.
\<close>

theorem second_sync_changes_no_role:
  "to_remove (snd (promote_user (Some (resync m L g)) L (Some g))) = []
   \<and> to_add (snd (promote_user (Some (resync m L g)) L (Some g)))
       = (case role_of_level g L of None \<Rightarrow> [] | Some r \<Rightarrow> [r])
   \<and> to_add (snd (promote_user (Some (resync m L g)) L (Some g)))
       = to_add (snd (promote_user (Some m) L (Some g)))
   \<and> resync (resync m L g) L g = resync m L g"
proof -
  let ?m1 = "resync m L g"
  have a: "to_remove (snd (promote_user (Some ?m1) L (Some g))) = []"
    by (simp add: promote_user_to_remove held_lower_after_resync)
  have b: "to_add (snd (promote_user (Some ?m1) L (Some g)))
       = (case role_of_level g L of None \<Rightarrow> [] | Some r \<Rightarrow> [r])"
    by (rule promote_user_to_add)
  have "r \<in> set (member_roles ?m1)" if "role_of_level g L = Some r" for r
    using that unfolding roles_after_resync by simp
  then have c: "resync ?m1 L g = ?m1"
    unfolding resync_def [of ?m1] promote_user_present [of ?m1] held_lower_after_resync
    by (auto simp: apply_delta_def split: option.splits)
  show ?thesis using a b c by (simp add: promote_user_to_add)
qed

theorem second_sync_changes_no_role_witness:
  "to_remove (snd (promote_user (Some (resync alice 1 hq)) 1 (Some hq))) = []
   \<and> role_of_level hq 1 = Some initiate
   \<and> to_add (snd (promote_user (Some (resync alice 1 hq)) 1 (Some hq)))
       = to_add (snd (promote_user (Some alice) 1 (Some hq)))
   \<and> resync (resync alice 1 hq) 1 hq = resync alice 1 hq"
proof -
  have "role_of_level hq 1 = Some initiate" by code_simp
  then show ?thesis using second_sync_changes_no_role [of alice 1 hq] by blast
qed

text \<open>
  C6 as stated fails: a member holding the role of level 0 is promoted to level 1; after
  the requests are carried out the member holds the role of level 1 alone, and the second
  run for level 1 asks for that role to be added again.
\<close>

theorem second_sync_adds_again:
  "to_remove (snd (promote_user (Some alice) 1 (Some hq))) = [recruit]
   \<and> to_add (snd (promote_user (Some alice) 1 (Some hq))) = [initiate]
   \<and> member_roles (resync alice 1 hq) = [initiate]
   \<and> to_add (snd (promote_user (Some (resync alice 1 hq)) 1 (Some hq))) = [initiate]"
  by code_simp

text \<open>
  C7. For a member and a guild at hand, the roles that \<open>promote_user\<close> asks to remove are
  exactly the roles the member holds that are the tag of a level from 0 up to, and not
  including, the target level; the tag of a level at or above the target is never among
  them.
\<close>

theorem removals_are_the_lower_tags:
  "set (to_remove (snd (promote_user (Some m) L (Some g)))) =
     {r \<in> set (member_roles m). \<exists>level. 0 \<le> level \<and> level < L \<and> role_of_level g level = Some r}
   \<and> (\<forall>level r. L \<le> level \<and> role_of_level g level = Some r
         \<longrightarrow> r \<notin> set (to_remove (snd (promote_user (Some m) L (Some g)))))"
proof -
  have a: "set (to_remove (snd (promote_user (Some m) L (Some g)))) =
     {r \<in> set (member_roles m). \<exists>level. 0 \<le> level \<and> level < L \<and> role_of_level g level = Some r}"
    by (simp add: promote_user_to_remove set_held_lower)
  have "r \<notin> set (to_remove (snd (promote_user (Some m) L (Some g))))"
    if "L \<le> level" "role_of_level g level = Some r" for level r
  proof
    assume "r \<in> set (to_remove (snd (promote_user (Some m) L (Some g))))"
    then obtain l where l: "l < L" "role_of_level g l = Some r" unfolding a by blast
    have "l = level" using l(2) that(2) by (rule role_of_level_inj)
    then show False using l(1) that(1) by simp
  qed
  with a show ?thesis by blast
qed

theorem removals_are_the_lower_tags_witness:
  "(2::int) \<le> 5 \<and> role_of_level hq 5 = Some senior
   \<and> senior \<in> set (member_roles carol)
   \<and> senior \<notin> set (to_remove (snd (promote_user (Some carol) 2 (Some hq))))
   \<and> to_remove (snd (promote_user (Some carol) 2 (Some hq))) = [recruit, initiate]"
proof -
  have a: "role_of_level hq 5 = Some senior" by code_simp
  have b: "senior \<in> set (member_roles carol)" by (simp add: carol_def)
  have c: "to_remove (snd (promote_user (Some carol) 2 (Some hq))) = [recruit, initiate]"
    by code_simp
  have "senior \<notin> set (to_remove (snd (promote_user (Some carol) 2 (Some hq))))"
    using removals_are_the_lower_tags [of carol 2 hq, THEN conjunct2, rule_format, of 5 senior] a
    by simp
  then show ?thesis using a b c by simp
qed

text \<open>
  C8. For a member and a guild at hand, \<open>promote_user\<close> raises nothing, whichever roles the
  guild lacks: a level whose role the guild lacks is passed over and the levels after it
  are still handled, the role of the target level is added when the guild has it and
  passed over when not, and the promotion is announced whenever the guild has the channel
  for announcements.
\<close>

theorem missing_roles_are_skipped:
  "fst (promote_user (Some m) L (Some g)) = None
   \<and> to_remove (snd (promote_user (Some m) L (Some g)))
       = filter (\<lambda>r. r \<in> set (member_roles m)) (List.map_filter (role_of_level g) (py_range0 L))
   \<and> to_add (snd (promote_user (Some m) L (Some g)))
       = (case role_of_level g L of None \<Rightarrow> [] | Some r \<Rightarrow> [r])
   \<and> announcements (snd (promote_user (Some m) L (Some g)))
       = (if ''announcements'' \<in> set (guild_text_channels g)
          then [(member_id m, CLEARANCE_ROLES L)] else [])"
  using promote_user_to_remove [of m L g] promote_user_to_add [of m L g]
    promote_user_announcements [of m L g]
  by (simp add: promote_user_present held_lower_def)

theorem missing_roles_are_skipped_witness:
  "role_of_level outpost 0 = None \<and> role_of_level outpost 2 = None
   \<and> fst (promote_user (Some carol) 2 (Some outpost)) = None
   \<and> to_remove (snd (promote_user (Some carol) 2 (Some outpost))) = [initiate]
   \<and> to_add (snd (promote_user (Some carol) 2 (Some outpost))) = []
   \<and> announcements (snd (promote_user (Some carol) 2 (Some outpost)))
       = [(8, Some ''CL-2: Asset'')]"
proof -
  have a: "role_of_level outpost 0 = None" "role_of_level outpost 2 = None" by code_simp+
  have b: "filter (\<lambda>r. r \<in> set (member_roles carol))
             (List.map_filter (role_of_level outpost) (py_range0 2)) = [initiate]"
    by code_simp
  have c: "''announcements'' \<in> set (guild_text_channels outpost)" by (simp add: outpost_def)
  have d: "member_id carol = 8" by (simp add: carol_def)
  have e: "CLEARANCE_ROLES 2 = Some ''CL-2: Asset''" by (simp add: CLEARANCE_ROLES_def)
  show ?thesis using missing_roles_are_skipped [of carol 2 outpost] a b c d e by simp
qed

text \<open>
  C9. For a member who is not a bot and whose stored level is \<open>MAX_LEVEL\<close>, an activity
  message raises nothing, stores one point more with the level unchanged, and records one
  commit and the processing of commands: no role is asked to be removed or added and no
  promotion is announced.
\<close>

theorem max_level_activity:
  assumes "\<not> member_bot (message_author msg)"
    and "get_user_data s (member_id (message_author msg)) = (xp, MAX_LEVEL)"
  shows "on_message msg s =
     (None, s\<lparr>users := (users s)(member_id (message_author msg) \<mapsto> (xp + 1, MAX_LEVEL)),
              trace := trace s @ [Commit (member_id (message_author msg)) (xp + 1) MAX_LEVEL,
                                  ProcessCommands]\<rparr>)"
  using assms
  by (simp add: on_message_def check_promotion_def MAX_LEVEL_def Let_def emit_def
      update_user_data_def)

theorem max_level_activity_witness:
  "\<not> member_bot (message_author hello)
   \<and> get_user_data master (member_id (message_author hello)) = (6000, MAX_LEVEL)
   \<and> on_message hello master =
       (None, master\<lparr>users := (users master)(member_id (message_author hello) \<mapsto> (6000 + 1, MAX_LEVEL)),
                trace := trace master @ [Commit (member_id (message_author hello)) (6000 + 1) MAX_LEVEL,
                                         ProcessCommands]\<rparr>)"
proof -
  have a: "\<not> member_bot (message_author hello)" by (simp add: hello_def alice_def)
  have b: "get_user_data master (member_id (message_author hello)) = (6000, MAX_LEVEL)"
    by (simp add: get_user_data_def master_def hello_def alice_def MAX_LEVEL_def)
  show ?thesis using max_level_activity [OF a b] a b by blast
qed

text \<open>
  C10. A message whose author is a bot leaves the whole state as it is: no row, no
  request to the platform, nothing in the trace. So does a reaction whose reacting member
  the guild knows and knows as a bot.
\<close>

theorem bots_change_nothing:
  "(member_bot (message_author msg) \<longrightarrow> on_message msg s = (None, s))
   \<and> (get_guild s (payload_guild_id p) = Some g
        \<and> guild_members g (payload_user_id p) = Some m \<and> member_bot m
        \<longrightarrow> on_raw_reaction_add p s = (None, s))"
  by (auto simp: on_message_bot on_raw_reaction_add_def Let_def)

theorem bots_change_nothing_witness:
  "member_bot (message_author beep)
   \<and> on_message beep start = (None, start)
   \<and> Some (payload_message_id robot_react) = verification_message_id start
   \<and> payload_emoji robot_react = check_mark
   \<and> get_guild start (payload_guild_id robot_react) = Some hq
   \<and> guild_members hq (payload_user_id robot_react) = Some robot
   \<and> member_bot robot
   \<and> on_raw_reaction_add robot_react start = (None, start)"
proof -
  have a: "member_bot (message_author beep)" by (simp add: beep_def robot_def)
  have b: "Some (payload_message_id robot_react) = verification_message_id start"
    "payload_emoji robot_react = check_mark"
    by (simp_all add: robot_react_def start_def)
  have c: "get_guild start (payload_guild_id robot_react) = Some hq"
    by (simp add: get_guild_def robot_react_def start_def)
  have d: "guild_members hq (payload_user_id robot_react) = Some robot"
    by (simp add: hq_def robot_react_def)
  have e: "member_bot robot" by (simp add: robot_def)
  show ?thesis
    using bots_change_nothing [of beep start robot_react hq robot] a b c d e by blast
qed

end
